theory Spec2Isabelle
  imports Complex_Main
begin

section \<open>Tensors of the host framework\<close>

text \<open>
  The source is written against a tensor library. A tensor is modelled by its shape and the
  function that reads one element at a multi-index; only indices that are valid for the shape
  carry meaning. Elements are real numbers: rounding, NaN and the infinities of floating point
  are outside this model, so every statement below is one of exact real arithmetic.
\<close>

datatype error = RuntimeError | ValueError | IndexError

record tensor =
  shape :: "nat list"
  elem :: "nat list \<Rightarrow> real"

definition valid_index :: "nat list \<Rightarrow> nat list \<Rightarrow> bool" where
  "valid_index s idx = list_all2 (<) idx s"

fun indices :: "nat list \<Rightarrow> nat list list" where
  "indices [] = [[]]"
| "indices (d # ds) = concat (map (\<lambda>i. map ((#) i) (indices ds)) [0..<d])"

definition tensor_all :: "(real \<Rightarrow> bool) \<Rightarrow> tensor \<Rightarrow> bool" where
  "tensor_all P t = list_all (\<lambda>idx. P (elem t idx)) (indices (shape t))"

text \<open>A Python number used as a tensor: zero axes, one element.\<close>

definition scalar :: "real \<Rightarrow> tensor" where
  "scalar x = \<lparr>shape = [], elem = (\<lambda>_. x)\<rparr>"

definition tmap :: "(real \<Rightarrow> real) \<Rightarrow> tensor \<Rightarrow> tensor" where
  "tmap f t = \<lparr>shape = shape t, elem = (\<lambda>idx. f (elem t idx))\<rparr>"

subsection \<open>Broadcasting\<close>

text \<open>
  Shapes are aligned at their last axis. Two sizes are compatible when they are equal or one
  of them is 1; the functions below work on the reversed shapes.
\<close>

fun bc_rev :: "nat list \<Rightarrow> nat list \<Rightarrow> nat list option" where
  "bc_rev [] ys = Some ys"
| "bc_rev (x # xs) [] = Some (x # xs)"
| "bc_rev (x # xs) (y # ys) =
     (if x = y \<or> x = 1 \<or> y = 1
      then map_option ((#) (if x = 1 then y else x)) (bc_rev xs ys)
      else None)"

definition broadcast_shapes :: "nat list \<Rightarrow> nat list \<Rightarrow> nat list option" where
  "broadcast_shapes a b = map_option rev (bc_rev (rev a) (rev b))"

text \<open>
  Reading a tensor of shape \<open>s\<close> through a broadcast view at index \<open>idx\<close>: the leading
  axes of the view that the tensor lacks are dropped, and an axis of size 1 is read at 0.
\<close>

fun bidx_rev :: "nat list \<Rightarrow> nat list \<Rightarrow> nat list" where
  "bidx_rev [] js = []"
| "bidx_rev (d # ds) [] = []"
| "bidx_rev (d # ds) (j # js) = (if d = 1 then 0 else j) # bidx_rev ds js"

definition bidx :: "nat list \<Rightarrow> nat list \<Rightarrow> nat list" where
  "bidx s idx = rev (bidx_rev (rev s) (rev idx))"

definition expand_view :: "nat list \<Rightarrow> tensor \<Rightarrow> tensor" where
  "expand_view s t = \<lparr>shape = s, elem = (\<lambda>idx. elem t (bidx (shape t) idx))\<rparr>"

fun expandable_rev :: "nat list \<Rightarrow> nat list \<Rightarrow> bool" where
  "expandable_rev [] ns = True"
| "expandable_rev (d # ds) [] = False"
| "expandable_rev (d # ds) (n # ns) = ((d = n \<or> d = 1) \<and> expandable_rev ds ns)"

definition expandable :: "nat list \<Rightarrow> nat list \<Rightarrow> bool" where
  "expandable s sizes = expandable_rev (rev s) (rev sizes)"

text \<open>\<^verbatim>\<open>Tensor.expand(sizes)\<close>: every axis keeps its size or grows from size 1.\<close>

definition expand :: "tensor \<Rightarrow> nat list \<Rightarrow> error + tensor" where
  "expand t sizes =
     (if expandable (shape t) sizes then Inr (expand_view sizes t) else Inl RuntimeError)"

text \<open>An elementwise binary operator of the library, with broadcasting.\<close>

definition binop :: "(real \<Rightarrow> real \<Rightarrow> real) \<Rightarrow> tensor \<Rightarrow> tensor \<Rightarrow> error + tensor" where
  "binop f a b =
     (case broadcast_shapes (shape a) (shape b) of
        None \<Rightarrow> Inl RuntimeError
      | Some s \<Rightarrow>
          Inr \<lparr>shape = s,
               elem = (\<lambda>idx. f (elem a (bidx (shape a) idx)) (elem b (bidx (shape b) idx)))\<rparr>)"

text \<open>\<^verbatim>\<open>broadcast_all(loc, scale)\<close>: both arguments expanded to their common shape.\<close>

definition broadcast_all :: "tensor \<Rightarrow> tensor \<Rightarrow> error + tensor \<times> tensor" where
  "broadcast_all a b =
     (case broadcast_shapes (shape a) (shape b) of
        None \<Rightarrow> Inl RuntimeError
      | Some s \<Rightarrow> Inr (expand_view s a, expand_view s b))"

text \<open>Sequencing of operations that may raise.\<close>

definition bind_err :: "error + 'a \<Rightarrow> ('a \<Rightarrow> error + 'b) \<Rightarrow> error + 'b" where
  "bind_err r f = (case r of Inl e \<Rightarrow> Inl e | Inr x \<Rightarrow> f x)"

section \<open>The class \<^verbatim>\<open>Normal_\<close>\<close>

text \<open>
  \<^verbatim>\<open>loc\<close> and \<^verbatim>\<open>scale\<close> are the attributes set by the constructor, \<^verbatim>\<open>batch_shape\<close> and
  \<^verbatim>\<open>_validate_args\<close> those set by the base class. The event shape of this class is always
  empty. The optional argument \<^verbatim>\<open>validate_args\<close> is taken after its default has been
  resolved.
\<close>

record normal =
  loc :: tensor
  scale :: tensor
  n_batch_shape :: "nat list"
  n_validate_args :: bool

text \<open>
  The invariant of the data model: \<^verbatim>\<open>loc\<close> and \<^verbatim>\<open>scale\<close> have the batch shape, and
  \<^verbatim>\<open>scale\<close> is positive everywhere.
\<close>

definition Normal_inv :: "normal \<Rightarrow> bool" where
  "Normal_inv d \<longleftrightarrow>
     shape (loc d) = n_batch_shape d \<and> shape (scale d) = n_batch_shape d \<and>
     list_all (\<lambda>idx. 0 < elem (scale d) idx) (indices (n_batch_shape d))"

text \<open>
  The two constraint objects of the class: \<^verbatim>\<open>constraints.real\<close> holds of every real number
  (it only rejects NaN), \<^verbatim>\<open>constraints.positive\<close> of the positive ones.
  \<^verbatim>\<open>support = constraints.real\<close>.
\<close>

definition constraints_real :: "real \<Rightarrow> bool" where
  "constraints_real x = True"

definition constraints_positive :: "real \<Rightarrow> bool" where
  "constraints_positive x = (0 < x)"

definition support :: "real \<Rightarrow> bool" where
  "support = constraints_real"

text \<open>
  The base class constructor checks \<^verbatim>\<open>arg_constraints\<close> when validation is on.
\<close>

definition Normal_init :: "tensor \<Rightarrow> tensor \<Rightarrow> bool \<Rightarrow> error + normal" where
  "Normal_init loc0 scale0 validate =
     bind_err (broadcast_all loc0 scale0) (\<lambda>(l, s).
       if validate \<and> \<not> (tensor_all constraints_real l \<and> tensor_all constraints_positive s)
       then Inl ValueError
       else Inr \<lparr>loc = l, scale = s, n_batch_shape = shape l, n_validate_args = validate\<rparr>)"

definition Normal_expand :: "normal \<Rightarrow> nat list \<Rightarrow> error + normal" where
  "Normal_expand d bs =
     bind_err (expand (loc d) bs) (\<lambda>l.
     bind_err (expand (scale d) bs) (\<lambda>s.
       Inr \<lparr>loc = l, scale = s, n_batch_shape = bs, n_validate_args = n_validate_args d\<rparr>))"

text \<open>
  \<^verbatim>\<open>_validate_sample\<close> of the base class: the shape of the value has to be compatible with
  the batch shape, and every element has to lie in the support.
\<close>

fun shapes_compatible_rev :: "nat list \<Rightarrow> nat list \<Rightarrow> bool" where
  "shapes_compatible_rev (i # is) (j # js) =
     (\<not> (i \<noteq> 1 \<and> j \<noteq> 1 \<and> i \<noteq> j) \<and> shapes_compatible_rev is js)"
| "shapes_compatible_rev is js = True"

definition validate_sample :: "normal \<Rightarrow> tensor \<Rightarrow> error + unit" where
  "validate_sample d v =
     (if \<not> shapes_compatible_rev (rev (shape v)) (rev (n_batch_shape d)) then Inl ValueError
      else if \<not> tensor_all support v then Inl ValueError
      else Inr ())"

definition checked :: "normal \<Rightarrow> tensor \<Rightarrow> error + unit" where
  "checked d v = (if n_validate_args d then validate_sample d v else Inr ())"

text \<open>
  \<^verbatim>\<open>rsample\<close>: the standard normal draw of shape \<^verbatim>\<open>sample_shape + batch_shape\<close> is the
  argument \<open>noise\<close>, which gives the drawn number at each index.
\<close>

definition Normal_rsample :: "(nat list \<Rightarrow> real) \<Rightarrow> normal \<Rightarrow> nat list \<Rightarrow> error + tensor" where
  "Normal_rsample noise d sample_shape =
     (let eps = \<lparr>shape = sample_shape @ n_batch_shape d, elem = noise\<rparr>
      in bind_err (binop (*) eps (scale d)) (\<lambda>es. binop (+) (loc d) es))"

definition Normal_log_prob :: "normal \<Rightarrow> tensor \<Rightarrow> error + tensor" where
  "Normal_log_prob d v =
     bind_err (checked d v) (\<lambda>_.
       let log_scale = tmap ln (scale d) in
       bind_err (binop (-) v (loc d)) (\<lambda>diff.
       bind_err (binop (/) diff (scale d)) (\<lambda>z.
       bind_err (binop (-) (tmap (\<lambda>x. - 0.5 * x) (tmap (\<lambda>x. x ^ 2) z)) log_scale) (\<lambda>r.
         Inr (tmap (\<lambda>x. x - 0.5 * ln (2 * pi)) r)))))"

text \<open>
  \<^verbatim>\<open>torch.erf\<close> and \<^verbatim>\<open>torch.erfinv\<close> are functions of the library; they are parameters
  of \<open>cdf\<close> and \<open>icdf\<close>.
\<close>

definition Normal_cdf :: "(real \<Rightarrow> real) \<Rightarrow> normal \<Rightarrow> tensor \<Rightarrow> error + tensor" where
  "Normal_cdf erf d v =
     bind_err (checked d v) (\<lambda>_.
       bind_err (binop (-) v (loc d)) (\<lambda>diff.
       bind_err (binop (*) diff (tmap inverse (scale d))) (\<lambda>z.
         Inr (tmap (\<lambda>x. 0.5 * (1 + x)) (tmap erf (tmap (\<lambda>x. x / sqrt 2) z))))))"

definition Normal_icdf :: "(real \<Rightarrow> real) \<Rightarrow> normal \<Rightarrow> tensor \<Rightarrow> error + tensor" where
  "Normal_icdf erfinv d v =
     bind_err (checked d v) (\<lambda>_.
       bind_err (binop (*) (scale d) (tmap erfinv (tmap (\<lambda>x. 2 * x - 1) v))) (\<lambda>p.
         binop (+) (loc d) (tmap (\<lambda>x. x * sqrt 2) p)))"

definition Normal_entropy :: "normal \<Rightarrow> tensor" where
  "Normal_entropy d = tmap (\<lambda>x. 0.5 + 0.5 * ln (2 * pi) + x) (tmap ln (scale d))"

section \<open>Further tensor operations\<close>

text \<open>
  \<^verbatim>\<open>Tensor.permute(dims)\<close>: \<open>dims\<close> has to name every axis once; axis \<open>i\<close> of the result is
  axis \<open>dims ! i\<close> of the argument.
\<close>

definition inv_pos :: "nat list \<Rightarrow> nat \<Rightarrow> nat" where
  "inv_pos dims k = length (takeWhile (\<lambda>d. d \<noteq> k) dims)"

definition permute :: "tensor \<Rightarrow> nat list \<Rightarrow> error + tensor" where
  "permute t dims =
     (if length dims = length (shape t) \<and> list_all (\<lambda>k. k \<in> set dims) [0..<length (shape t)]
      then Inr \<lparr>shape = map (\<lambda>d. shape t ! d) dims,
                elem = (\<lambda>idx. elem t (map (\<lambda>k. idx ! inv_pos dims k) [0..<length dims]))\<rparr>
      else Inl RuntimeError)"

text \<open>Indexing with \<^verbatim>\<open>None\<close>: a new axis of size 1 at position \<open>p\<close>.\<close>

definition unsqueeze :: "nat \<Rightarrow> tensor \<Rightarrow> tensor" where
  "unsqueeze p t =
     \<lparr>shape = take p (shape t) @ [1] @ drop p (shape t),
      elem = (\<lambda>idx. elem t (take p idx @ drop (Suc p) idx))\<rparr>"

text \<open>
  \<^verbatim>\<open>Tensor.repeat(sizes)\<close>: at least as many sizes as axes; the tensor is tiled along each
  axis.
\<close>

definition tensor_repeat :: "tensor \<Rightarrow> nat list \<Rightarrow> error + tensor" where
  "tensor_repeat t reps =
     (if length reps < length (shape t) then Inl RuntimeError
      else
        let k = length reps - length (shape t) in
        Inr \<lparr>shape = map2 (*) (replicate k 1 @ shape t) reps,
             elem = (\<lambda>idx. elem t (map2 (\<lambda>i d. i mod d) (drop k idx) (shape t)))\<rparr>)"

text \<open>\<^verbatim>\<open>torch.sum(t, dim=-1)\<close>; on a tensor without axes it returns the tensor.\<close>

definition sum_last :: "tensor \<Rightarrow> tensor" where
  "sum_last t =
     (if shape t = [] then t
      else \<lparr>shape = butlast (shape t),
            elem = (\<lambda>idx. \<Sum>m<last (shape t). elem t (idx @ [m]))\<rparr>)"

text \<open>
  \<^verbatim>\<open>torch.logsumexp(t, dim=-2)\<close>, the logarithm of the sum of the exponentials along the
  axis before the last. How the library keeps that computation stable in floating point is
  outside the model.
\<close>

definition logsumexp_dim2 :: "tensor \<Rightarrow> error + tensor" where
  "logsumexp_dim2 t =
     (if length (shape t) < 2 then Inl IndexError
      else
        let s = shape t; n = length s in
        Inr \<lparr>shape = take (n - 2) s @ [last s],
             elem = (\<lambda>idx. ln (\<Sum>m<s ! (n - 2). exp (elem t (butlast idx @ [m, last idx]))))\<rparr>)"

section \<open>The class \<^verbatim>\<open>MixtureSameFamily\<close>\<close>

text \<open>
  The two constructor arguments are objects of the host framework; each is modelled by the
  attributes and methods that the class uses. A draw is a function of the sample shape: the
  tensor that the call returned in the run under consideration.
\<close>

record categorical =
  logits :: tensor
  draw :: "nat list \<Rightarrow> error + tensor"

record components =
  c_batch_shape :: "nat list"
  c_event_shape :: "nat list"
  c_rsample :: "nat list \<Rightarrow> error + tensor"
  c_log_prob :: "tensor \<Rightarrow> error + tensor"

record mixture =
  mixture_distribution :: categorical
  components_distribution :: components
  batch_shape :: "nat list"
  event_shape :: "nat list"

definition MixtureSameFamily_init :: "categorical \<Rightarrow> components \<Rightarrow> error + mixture" where
  "MixtureSameFamily_init mix comps =
     Inr \<lparr>mixture_distribution = mix, components_distribution = comps,
          batch_shape = c_batch_shape comps, event_shape = c_event_shape comps\<rparr>"

text \<open>Lines 113 and 114 of \<^verbatim>\<open>sample\<close>: \<^verbatim>\<open>mixture_mask[:, None, ...]\<close> for a mask of three axes.\<close>

definition mask_align :: "tensor \<Rightarrow> tensor" where
  "mask_align mixture_mask =
     (if length (shape mixture_mask) = 3 then unsqueeze 1 mixture_mask else mixture_mask)"

definition MixtureSameFamily_sample :: "mixture \<Rightarrow> nat list \<Rightarrow> error + tensor" where
  "MixtureSameFamily_sample m sample_shape =
     bind_err (draw (mixture_distribution m) sample_shape) (\<lambda>mixture_mask.
     bind_err (c_rsample (components_distribution m) sample_shape) (\<lambda>components_samples.
     bind_err (binop (*) (mask_align mixture_mask) components_samples) (\<lambda>p.
       Inr (sum_last p))))"

text \<open>Lines 122 and 123 of \<^verbatim>\<open>log_prob\<close>: the value with a component axis added.\<close>

definition pad_value :: "tensor \<Rightarrow> nat list \<Rightarrow> error + tensor" where
  "pad_value v bsh =
     bind_err (permute v [2, 0, 1]) (\<lambda>v1.
     bind_err (if bsh = [] then Inl IndexError else Inr (last bsh)) (\<lambda>M.
       tensor_repeat (unsqueeze (length (shape v1)) v1) [1, 1, 1, M]))"

definition MixtureSameFamily_log_prob :: "mixture \<Rightarrow> tensor \<Rightarrow> error + tensor" where
  "MixtureSameFamily_log_prob m v =
     bind_err (pad_value v (batch_shape m)) (\<lambda>v2.
     bind_err (c_log_prob (components_distribution m) v2) (\<lambda>lp.
     bind_err (permute lp [1, 2, 3, 0]) (\<lambda>log_prob_components.
       let log_prob_mixture = logits (mixture_distribution m);
           log_prob_mixture = unsqueeze (length (shape log_prob_mixture)) log_prob_mixture
       in bind_err (binop (+) log_prob_mixture log_prob_components) logsumexp_dim2)))"

text \<open>An instance of \<^verbatim>\<open>Normal_\<close> as the components distribution.\<close>

definition Normal_components :: "(nat list \<Rightarrow> real) \<Rightarrow> normal \<Rightarrow> components" where
  "Normal_components noise d =
     \<lparr>c_batch_shape = n_batch_shape d, c_event_shape = [],
      c_rsample = Normal_rsample noise d, c_log_prob = Normal_log_prob d\<rparr>"

text \<open>
  The one-hot categorical distribution of the host framework, built from \<^verbatim>\<open>logits\<close>: the
  constructor wants at least one axis and stores the logits normalised along the last axis
  (minus their log-sum-exp), so that their exponentials are the weights; a draw has the shape
  \<^verbatim>\<open>sample_shape + logits.shape\<close>. The argument \<open>pick\<close> gives the drawn indicator at each
  index.
\<close>

definition OneHotCategorical :: "tensor \<Rightarrow> (nat list \<Rightarrow> real) \<Rightarrow> error + categorical" where
  "OneHotCategorical lg pick =
     (if shape lg = [] then Inl ValueError
      else Inr \<lparr>logits =
                  \<lparr>shape = shape lg,
                   elem = (\<lambda>idx. elem lg idx
                             - ln (\<Sum>m<last (shape lg). exp (elem lg (butlast idx @ [m]))))\<rparr>,
                draw = (\<lambda>sample_shape.
                  Inr \<lparr>shape = sample_shape @ shape lg, elem = pick\<rparr>)\<rparr>)"

section \<open>Concrete inputs\<close>

text \<open>Two Gaussians with means -1 and 1 and scales 1 and 2, validation on.\<close>

definition ex_normal :: normal where
  "ex_normal =
     \<lparr>loc = \<lparr>shape = [2], elem = (\<lambda>idx. if idx = [0] then - 1 else 1)\<rparr>,
      scale = \<lparr>shape = [2], elem = (\<lambda>idx. if idx = [0] then 1 else 2)\<rparr>,
      n_batch_shape = [2], n_validate_args = True\<rparr>"

text \<open>
  A mixture of two components with means -1 and 1 and unit scales, batch shape \<open>[1, 1, 2]\<close>,
  the logits \<open>[0, 0]\<close> passed to the categorical constructor, and the value 0 as a tensor of
  three axes.
\<close>

definition ex_pair :: normal where
  "ex_pair =
     \<lparr>loc = \<lparr>shape = [1, 1, 2], elem = (\<lambda>idx. if idx = [0, 0, 0] then - 1 else 1)\<rparr>,
      scale = \<lparr>shape = [1, 1, 2], elem = (\<lambda>_. 1)\<rparr>,
      n_batch_shape = [1, 1, 2], n_validate_args = True\<rparr>"

definition ex_zero_logits :: tensor where
  "ex_zero_logits = \<lparr>shape = [1, 1, 2], elem = (\<lambda>_. 0)\<rparr>"

definition ex_value0 :: tensor where
  "ex_value0 = \<lparr>shape = [1, 1, 1], elem = (\<lambda>_. 0)\<rparr>"

definition ex_pick :: "nat list \<Rightarrow> real" where
  "ex_pick idx = (if last idx = 0 then 1 else 0)"

definition ex_noise :: "nat list \<Rightarrow> real" where
  "ex_noise idx = 0"

text \<open>
  A categorical distribution over two outcomes with equal weights and batch shape \<open>[1, 1]\<close>,
  and standard Gaussians of batch shape \<open>[2, 3, 4]\<close> with logits of the same shape.
\<close>

definition ex_cat :: categorical where
  "ex_cat =
     \<lparr>logits = \<lparr>shape = [1, 1, 2], elem = (\<lambda>_. - ln 2)\<rparr>,
      draw = (\<lambda>sample_shape. Inr \<lparr>shape = sample_shape @ [1, 1, 2], elem = ex_pick\<rparr>)\<rparr>"

definition ex_std :: normal where
  "ex_std =
     \<lparr>loc = \<lparr>shape = [2, 3, 4], elem = (\<lambda>_. 0)\<rparr>,
      scale = \<lparr>shape = [2, 3, 4], elem = (\<lambda>_. 1)\<rparr>,
      n_batch_shape = [2, 3, 4], n_validate_args = True\<rparr>"

definition ex_wide :: mixture where
  "ex_wide =
     \<lparr>mixture_distribution =
        \<lparr>logits = \<lparr>shape = [2, 3, 4], elem = (\<lambda>_. - ln 4)\<rparr>,
         draw = (\<lambda>sample_shape. Inr \<lparr>shape = sample_shape @ [2, 3, 4], elem = ex_pick\<rparr>)\<rparr>,
      components_distribution = Normal_components ex_noise ex_std,
      batch_shape = [2, 3, 4], event_shape = []\<rparr>"

text \<open>A drawn mask of three axes.\<close>

definition ex_mask :: tensor where
  "ex_mask = \<lparr>shape = [2, 3, 4], elem = ex_pick\<rparr>"

text \<open>
  The concrete case of the specification: sample shape \<open>[10]\<close>, batch shape \<open>[3, 4]\<close>, event
  shape \<open>[2]\<close>. A components distribution draws tensors of shape
  \<^verbatim>\<open>sample_shape + batch_shape + event_shape\<close>; its \<^verbatim>\<open>log_prob\<close> plays no part in \<^verbatim>\<open>sample\<close>.
  The mixture distribution has four outcomes and batch shape \<open>[3]\<close>.
\<close>

definition ex_event_mixture :: mixture where
  "ex_event_mixture =
     \<lparr>mixture_distribution =
        \<lparr>logits = \<lparr>shape = [3, 4], elem = (\<lambda>_. - ln 4)\<rparr>,
         draw = (\<lambda>sample_shape. Inr \<lparr>shape = sample_shape @ [3, 4], elem = ex_pick\<rparr>)\<rparr>,
      components_distribution =
        \<lparr>c_batch_shape = [3, 4], c_event_shape = [2],
         c_rsample = (\<lambda>sample_shape.
           Inr \<lparr>shape = sample_shape @ [3, 4] @ [2], elem = ex_noise\<rparr>),
         c_log_prob = (\<lambda>v. Inl ValueError)\<rparr>,
      batch_shape = [3, 4], event_shape = [2]\<rparr>"

text \<open>
  Mixture weights shared over the first batch axis: logits of shape \<open>[3, 4]\<close> with Gaussians
  of batch shape \<open>[2, 3, 4]\<close>.
\<close>

definition ex_shared :: mixture where
  "ex_shared =
     \<lparr>mixture_distribution =
        \<lparr>logits = \<lparr>shape = [3, 4], elem = (\<lambda>_. - ln 4)\<rparr>,
         draw = (\<lambda>sample_shape. Inr \<lparr>shape = sample_shape @ [3, 4], elem = ex_pick\<rparr>)\<rparr>,
      components_distribution = Normal_components ex_noise ex_std,
      batch_shape = [2, 3, 4], event_shape = []\<rparr>"

section \<open>Facts about broadcasting\<close>

lemma bidx_rev_valid: "list_all2 (<) js ds \<Longrightarrow> bidx_rev ds js = js"
  by (induction js ds rule: list_all2_induct) auto

lemma bidx_valid: "valid_index s idx \<Longrightarrow> bidx s idx = idx"
  by (simp add: valid_index_def bidx_def bidx_rev_valid)

lemma bc_rev_Nil2: "bc_rev ys [] = Some ys"
  by (cases ys) auto

lemma bc_rev_refl: "bc_rev a a = Some a"
  by (induction a) auto

lemma bc_rev_absorb_r: "bc_rev a b = Some s \<Longrightarrow> bc_rev s b = Some s"
  by (induction a b arbitrary: s rule: bc_rev.induct) (auto split: if_splits simp: bc_rev_refl bc_rev_Nil2)

lemma bc_rev_absorb_l: "bc_rev a b = Some s \<Longrightarrow> bc_rev s a = Some s"
  by (induction a b arbitrary: s rule: bc_rev.induct) (auto split: if_splits simp: bc_rev_refl bc_rev_Nil2)

lemma bc_rev_absorb_r2: "bc_rev a b = Some s \<Longrightarrow> bc_rev b s = Some s"
  by (induction a b arbitrary: s rule: bc_rev.induct) (auto split: if_splits simp: bc_rev_refl bc_rev_Nil2)

lemma bc_rev_absorb_l2: "bc_rev a b = Some s \<Longrightarrow> bc_rev a s = Some s"
  by (induction a b arbitrary: s rule: bc_rev.induct) (auto split: if_splits simp: bc_rev_refl bc_rev_Nil2)

lemma bc_rev_comm: "bc_rev a b = bc_rev b a"
  by (induction a b rule: bc_rev.induct) (auto split: if_splits simp: bc_rev_Nil2)

lemma indices_valid: "set (indices s) = {idx. list_all2 (<) idx s}"
proof (induction s)
  case Nil
  then show ?case by auto
next
  case (Cons d ds)
  show ?case by (auto simp: Cons list_all2_Cons2)
qed

lemma compat_bc: "shapes_compatible_rev a b \<longleftrightarrow> bc_rev a b \<noteq> None"
  by (induction a b rule: bc_rev.induct) auto

lemma bidx_rev_compose:
  "expandable_rev a b \<Longrightarrow> bidx_rev a (bidx_rev b js) = bidx_rev a js"
proof (induction a b arbitrary: js rule: expandable_rev.induct)
  case (3 d ds n ns)
  then show ?case by (cases js) auto
qed auto

lemma bc_rev_bidx_valid_l:
  "bc_rev a b = Some s \<Longrightarrow> list_all2 (<) js s \<Longrightarrow> list_all2 (<) (bidx_rev a js) a"
proof (induction a b arbitrary: s js rule: bc_rev.induct)
  case (1 ys)
  then show ?case by simp
next
  case (2 x xs)
  then show ?case by (simp add: bidx_rev_valid)
next
  case (3 x xs y ys)
  then show ?case by (cases js) (auto split: if_splits)
qed

lemma broadcast_shapes_rev:
  "broadcast_shapes a b = Some s \<longleftrightarrow> bc_rev (rev a) (rev b) = Some (rev s)"
  by (cases "bc_rev (rev a) (rev b)") (auto simp: broadcast_shapes_def)

lemma broadcast_absorb:
  assumes "broadcast_shapes a b = Some s"
  shows "broadcast_shapes s b = Some s" "broadcast_shapes s a = Some s"
    "broadcast_shapes a s = Some s" "broadcast_shapes b s = Some s"
proof -
  have h: "bc_rev (rev a) (rev b) = Some (rev s)"
    using assms by (simp add: broadcast_shapes_rev)
  show "broadcast_shapes s b = Some s"
    unfolding broadcast_shapes_rev by (rule bc_rev_absorb_r[OF h])
  show "broadcast_shapes s a = Some s"
    unfolding broadcast_shapes_rev by (rule bc_rev_absorb_l[OF h])
  show "broadcast_shapes a s = Some s"
    unfolding broadcast_shapes_rev by (rule bc_rev_absorb_l2[OF h])
  show "broadcast_shapes b s = Some s"
    unfolding broadcast_shapes_rev by (rule bc_rev_absorb_r2[OF h])
qed

lemma broadcast_comm: "broadcast_shapes a b = broadcast_shapes b a"
  by (simp add: broadcast_shapes_def bc_rev_comm)

lemma broadcast_refl: "broadcast_shapes a a = Some a"
  by (simp add: broadcast_shapes_def bc_rev_refl)

lemma bidx_in_range_l:
  "broadcast_shapes a b = Some s \<Longrightarrow> valid_index s idx \<Longrightarrow> valid_index a (bidx a idx)"
  unfolding valid_index_def bidx_def broadcast_shapes_rev
  using bc_rev_bidx_valid_l[of "rev a" "rev b" "rev s" "rev idx"] by (simp add: list_all2_rev1)

lemma bidx_in_range_r:
  "broadcast_shapes a b = Some s \<Longrightarrow> valid_index s idx \<Longrightarrow> valid_index b (bidx b idx)"
  using bidx_in_range_l[of b a s idx] by (simp add: broadcast_comm)

lemma binop_Some:
  "broadcast_shapes (shape a) (shape b) = Some s \<Longrightarrow>
   binop f a b = Inr \<lparr>shape = s,
     elem = (\<lambda>idx. f (elem a (bidx (shape a) idx)) (elem b (bidx (shape b) idx)))\<rparr>"
  by (simp add: binop_def)

lemma tensor_all_iff:
  "tensor_all P t \<longleftrightarrow> (\<forall>idx. valid_index (shape t) idx \<longrightarrow> P (elem t idx))"
  by (auto simp: tensor_all_def list_all_iff indices_valid valid_index_def)

lemma validate_sample_ok:
  "broadcast_shapes (shape v) (n_batch_shape d) = Some s \<Longrightarrow> validate_sample d v = Inr ()"
  by (simp add: validate_sample_def compat_bc broadcast_shapes_rev tensor_all_iff support_def
      constraints_real_def)

lemma checked_ok:
  "broadcast_shapes (shape v) (n_batch_shape d) = Some s \<Longrightarrow> checked d v = Inr ()"
  by (simp add: checked_def validate_sample_ok)

lemma expandable_rev_refl: "expandable_rev a a"
  by (induction a) auto

lemma bc_rev_expandable_l: "bc_rev a b = Some s \<Longrightarrow> expandable_rev a s"
  by (induction a b arbitrary: s rule: bc_rev.induct)
     (auto split: if_splits simp: expandable_rev_refl)

lemma bc_rev_expandable_r: "bc_rev a b = Some s \<Longrightarrow> expandable_rev b s"
  using bc_rev_expandable_l[of b a s] by (simp add: bc_rev_comm)

lemma expandable_bidx_valid:
  "expandable_rev a b \<Longrightarrow> list_all2 (<) js b \<Longrightarrow> list_all2 (<) (bidx_rev a js) a"
proof (induction a b arbitrary: js rule: expandable_rev.induct)
  case (3 d ds n ns)
  then show ?case by (cases js) auto
qed auto

lemma bc_expand_mono:
  "expandable_rev old bs \<Longrightarrow> bc_rev vs old = Some s \<Longrightarrow> bc_rev vs bs = Some s'
   \<Longrightarrow> expandable_rev s s'"
proof (induction old bs arbitrary: vs s s' rule: expandable_rev.induct)
  case (1 ns)
  then show ?case using bc_rev_expandable_l[of vs ns s'] by (simp add: bc_rev_Nil2)
next
  case (2 d ds)
  then show ?case by simp
next
  case (3 d ds n ns)
  show ?case
  proof (cases vs)
    case Nil
    with 3 show ?thesis by auto
  next
    case (Cons x xs)
    with 3 show ?thesis by (auto split: if_splits)
  qed
qed

lemma expandable_bidx_compose: "expandable a b \<Longrightarrow> bidx a (bidx b idx) = bidx a idx"
  by (simp add: expandable_def bidx_def bidx_rev_compose)

lemma expandable_bidx_in_range:
  "expandable a b \<Longrightarrow> valid_index b idx \<Longrightarrow> valid_index a (bidx a idx)"
  unfolding valid_index_def bidx_def expandable_def
  using expandable_bidx_valid[of "rev a" "rev b" "rev idx"] by (simp add: list_all2_rev1)

lemma broadcast_expandable:
  assumes "broadcast_shapes a b = Some s"
  shows "expandable a s" "expandable b s"
  using assms bc_rev_expandable_l[of "rev a" "rev b" "rev s"]
    bc_rev_expandable_r[of "rev a" "rev b" "rev s"]
  by (simp_all add: broadcast_shapes_rev expandable_def)

lemma broadcast_expand_mono:
  "expandable old bs \<Longrightarrow> broadcast_shapes vs old = Some s \<Longrightarrow>
   broadcast_shapes vs bs = Some s' \<Longrightarrow> expandable s s'"
  unfolding expandable_def broadcast_shapes_rev by (rule bc_expand_mono)

section \<open>Properties of \<^verbatim>\<open>Normal_\<close>\<close>

lemma Normal_inv_shapes:
  "Normal_inv d \<Longrightarrow> shape (loc d) = n_batch_shape d"
  "Normal_inv d \<Longrightarrow> shape (scale d) = n_batch_shape d"
  by (simp_all add: Normal_inv_def)

lemma Normal_inv_positive:
  "Normal_inv d \<Longrightarrow> valid_index (n_batch_shape d) idx \<Longrightarrow> 0 < elem (scale d) idx"
  by (auto simp: Normal_inv_def list_all_iff indices_valid valid_index_def)

text \<open>The constructor with validation on establishes the invariant.\<close>

lemma Normal_init_inv:
  assumes "Normal_init loc0 scale0 True = Inr d"
  shows "Normal_inv d"
proof -
  from assms obtain s where
    s: "broadcast_shapes (shape loc0) (shape scale0) = Some s"
    by (auto simp: Normal_init_def broadcast_all_def bind_err_def split: option.splits)
  from assms s have d: "d = \<lparr>loc = expand_view s loc0, scale = expand_view s scale0,
      n_batch_shape = s, n_validate_args = True\<rparr>"
    and p: "tensor_all constraints_positive (expand_view s scale0)"
    by (auto simp: Normal_init_def broadcast_all_def bind_err_def expand_view_def
        split: if_splits)
  from p show ?thesis
    by (simp add: d Normal_inv_def tensor_all_def constraints_positive_def expand_view_def)
qed

lemma ex_normal_inv: "Normal_inv ex_normal"
  by (simp add: Normal_inv_def ex_normal_def upt_rec)

lemma ex_bc: "broadcast_shapes (shape (scalar 0)) (n_batch_shape ex_normal) = Some [2]"
  by (simp add: broadcast_shapes_def scalar_def ex_normal_def)

lemma log_prob_value:
  assumes "Normal_inv d" and "broadcast_shapes (shape v) (n_batch_shape d) = Some s"
  shows "\<exists>r. Normal_log_prob d v = Inr r \<and> shape r = s \<and>
    (\<forall>idx. valid_index s idx \<longrightarrow>
       elem r idx =
         - 0.5 * ((elem v (bidx (shape v) idx) - elem (loc d) (bidx (n_batch_shape d) idx))
                  / elem (scale d) (bidx (n_batch_shape d) idx)) ^ 2
         - ln (elem (scale d) (bidx (n_batch_shape d) idx)) - 0.5 * ln (2 * pi))"
proof -
  note sh = Normal_inv_shapes[OF assms(1)]
  have s2: "broadcast_shapes s (n_batch_shape d) = Some s"
    by (rule broadcast_absorb(1)[OF assms(2)])
  show ?thesis
    by (simp add: Normal_log_prob_def checked_ok[OF assms(2)] bind_err_def binop_def sh
        assms(2) s2 tmap_def bidx_valid)
qed

text \<open>
  Claim C8. For a distribution that satisfies the invariant and a value whose shape broadcasts
  against the batch shape to \<open>s\<close>, \<^verbatim>\<open>log_prob\<close> returns a tensor of shape \<open>s\<close> whose element
  at every index is \<open>-0.5 * ((value - loc) / scale)\<^sup>2 - log scale - 0.5 * log (2\<pi>)\<close>, each
  operand read through broadcasting.
\<close>

theorem Normal_log_prob_formula:
  assumes "Normal_inv d" and "broadcast_shapes (shape v) (n_batch_shape d) = Some s"
  shows "\<exists>r. Normal_log_prob d v = Inr r \<and> shape r = s \<and>
    (\<forall>idx. valid_index s idx \<longrightarrow>
       elem r idx =
         - 0.5 * ((elem v (bidx (shape v) idx) - elem (loc d) (bidx (n_batch_shape d) idx))
                  / elem (scale d) (bidx (n_batch_shape d) idx)) ^ 2
         - ln (elem (scale d) (bidx (n_batch_shape d) idx)) - 0.5 * ln (2 * pi))"
  using assms by (rule log_prob_value)

theorem Normal_log_prob_formula_witness:
  "Normal_inv ex_normal \<and>
   broadcast_shapes (shape (scalar 0)) (n_batch_shape ex_normal) = Some [2] \<and>
   (\<exists>r. Normal_log_prob ex_normal (scalar 0) = Inr r \<and> shape r = [2] \<and>
      elem r [1] = - 0.5 * ((0 - 1) / 2) ^ 2 - ln 2 - 0.5 * ln (2 * pi))"
proof -
  have v: "valid_index [2] [1]" by (simp add: valid_index_def)
  from Normal_log_prob_formula[OF ex_normal_inv ex_bc] v
  show ?thesis
    by (auto simp: ex_normal_inv ex_bc) (simp add: ex_normal_def scalar_def bidx_def)
qed

text \<open>
  Claim C9. \<^verbatim>\<open>entropy()\<close> has the batch shape, and its element at every index is
  \<open>0.5 + 0.5 * log (2\<pi>) + log scale\<close>.
\<close>

theorem Normal_entropy_formula:
  assumes "Normal_inv d"
  shows "shape (Normal_entropy d) = n_batch_shape d \<and>
    (\<forall>idx. elem (Normal_entropy d) idx = 0.5 + 0.5 * ln (2 * pi) + ln (elem (scale d) idx))"
  using assms by (simp add: Normal_entropy_def tmap_def Normal_inv_def)

theorem Normal_entropy_formula_witness:
  "Normal_inv ex_normal \<and> shape (Normal_entropy ex_normal) = [2] \<and>
   elem (Normal_entropy ex_normal) [1] = 0.5 + 0.5 * ln (2 * pi) + ln 2"
  using Normal_entropy_formula[OF ex_normal_inv]
  by (simp add: ex_normal_inv) (simp add: ex_normal_def)

lemma icdf_value:
  assumes "Normal_inv d" and "broadcast_shapes (shape v) (n_batch_shape d) = Some s"
  shows "\<exists>r. Normal_icdf erfinv d v = Inr r \<and> shape r = s \<and>
    (\<forall>idx. valid_index s idx \<longrightarrow>
       elem r idx =
         elem (loc d) (bidx (n_batch_shape d) idx)
         + elem (scale d) (bidx (n_batch_shape d) idx)
           * erfinv (2 * elem v (bidx (shape v) idx) - 1) * sqrt 2)"
proof -
  note sh = Normal_inv_shapes[OF assms(1)]
  have s1: "broadcast_shapes (n_batch_shape d) (shape v) = Some s"
    using assms(2) by (simp add: broadcast_comm)
  have s2: "broadcast_shapes (n_batch_shape d) s = Some s"
    by (rule broadcast_absorb(4)[OF assms(2)])
  show ?thesis
    by (simp add: Normal_icdf_def checked_ok[OF assms(2)] bind_err_def binop_def sh
        s1 s2 tmap_def bidx_valid)
qed

lemma tanh_artanh_real:
  assumes "- 1 < y" "y < 1"
  shows "tanh (artanh y) = (y::real)"
proof -
  have pos: "0 < (1 + y) / (1 - y)" using assms by simp
  have e: "exp (- (2 * artanh y)) = (1 - y) / (1 + y)"
    using pos assms by (simp add: artanh_def exp_minus exp_ln)
  have "tanh (artanh y) = (1 - exp (- 2 * artanh y)) / (1 + exp (- 2 * artanh y))"
    by (rule tanh_real_altdef)
  also have "\<dots> = (1 - (1 - y) / (1 + y)) / (1 + (1 - y) / (1 + y))"
    using e by simp
  also have "\<dots> = y" using assms by (simp add: field_simps)
  finally show ?thesis .
qed

text \<open>
  Claim C2, as stated, fails: it says that \<^verbatim>\<open>icdf\<close> raises for every value outside the open
  unit interval when validation is on. The value 2 is outside it, validation is on, and the
  call returns a tensor. (The function passed for \<^verbatim>\<open>erfinv\<close> plays no part in that.)
\<close>

theorem Normal_icdf_outside_unit_counterexample:
  "n_validate_args ex_normal \<and> \<not> isl (Normal_icdf artanh ex_normal (scalar 2))"
  by (simp add: Normal_icdf_def checked_def validate_sample_def ex_normal_def scalar_def
      tensor_all_def support_def constraints_real_def binop_def broadcast_shapes_def
      bind_err_def tmap_def)

text \<open>
  Claim C2, amended. \<^verbatim>\<open>icdf\<close> validates the value against the support of the class, which
  is the whole real line, so with validation on it accepts every value whose shape broadcasts
  against the batch shape, inside the unit interval or not, and returns
  \<open>loc + scale * erfinv (2 * value - 1) * sqrt 2\<close> elementwise.
\<close>

theorem Normal_icdf_formula:
  assumes "Normal_inv d" and "broadcast_shapes (shape v) (n_batch_shape d) = Some s"
  shows "\<exists>r. Normal_icdf erfinv d v = Inr r \<and> shape r = s \<and>
    (\<forall>idx. valid_index s idx \<longrightarrow>
       elem r idx =
         elem (loc d) (bidx (n_batch_shape d) idx)
         + elem (scale d) (bidx (n_batch_shape d) idx)
           * erfinv (2 * elem v (bidx (shape v) idx) - 1) * sqrt 2)"
  using assms by (rule icdf_value)

theorem Normal_icdf_formula_witness:
  "Normal_inv ex_normal \<and> n_validate_args ex_normal \<and>
   broadcast_shapes (shape (scalar 2)) (n_batch_shape ex_normal) = Some [2] \<and>
   (\<exists>r. Normal_icdf artanh ex_normal (scalar 2) = Inr r \<and> shape r = [2] \<and>
      elem r [1] = 1 + 2 * artanh (2 * 2 - 1) * sqrt 2)"
proof -
  have v: "valid_index [2] [1]" by (simp add: valid_index_def)
  have b: "broadcast_shapes (shape (scalar 2)) (n_batch_shape ex_normal) = Some [2]"
    by (simp add: broadcast_shapes_def scalar_def ex_normal_def)
  from Normal_icdf_formula[OF ex_normal_inv b, of artanh] v
  show ?thesis
    by (auto simp: ex_normal_inv b) (simp_all add: ex_normal_def scalar_def bidx_def)
qed

text \<open>
  Claim C6. Let \<^verbatim>\<open>erfinv\<close> be a right inverse of \<^verbatim>\<open>erf\<close> on the open interval from -1 to 1,
  as the library's pair is. For a distribution that satisfies the invariant and a tensor
  \<open>p\<close> with all elements strictly between 0 and 1 that broadcasts against the batch shape,
  \<^verbatim>\<open>icdf\<close> and then \<^verbatim>\<open>cdf\<close> both return, and the result is \<open>p\<close> (broadcast to the common
  shape), in exact real arithmetic.
\<close>

theorem Normal_cdf_icdf:
  assumes inv: "Normal_inv d"
    and bc: "broadcast_shapes (shape p) (n_batch_shape d) = Some s"
    and erf: "\<forall>y. - 1 < y \<and> y < 1 \<longrightarrow> erf (erfinv y) = y"
    and unit: "\<forall>idx. valid_index (shape p) idx \<longrightarrow> 0 < elem p idx \<and> elem p idx < 1"
  shows "\<exists>q r. Normal_icdf erfinv d p = Inr q \<and> Normal_cdf erf d q = Inr r \<and> shape r = s \<and>
    (\<forall>idx. valid_index s idx \<longrightarrow> elem r idx = elem p (bidx (shape p) idx))"
proof -
  note sh = Normal_inv_shapes[OF inv]
  from icdf_value[OF inv bc, of erfinv] obtain q where
    q: "Normal_icdf erfinv d p = Inr q" and shq: "shape q = s" and
    elq: "\<And>idx. valid_index s idx \<Longrightarrow>
       elem q idx = elem (loc d) (bidx (n_batch_shape d) idx)
         + elem (scale d) (bidx (n_batch_shape d) idx)
           * erfinv (2 * elem p (bidx (shape p) idx) - 1) * sqrt 2"
    by blast
  have s2: "broadcast_shapes s (n_batch_shape d) = Some s"
    by (rule broadcast_absorb(1)[OF bc])
  define r where "r = \<lparr>shape = s,
    elem = (\<lambda>idx. 0.5 * (1 + erf ((elem q (bidx s (bidx s idx))
              - elem (loc d) (bidx (n_batch_shape d) (bidx s idx)))
              * inverse (elem (scale d) (bidx (n_batch_shape d) idx)) / sqrt 2)))\<rparr>"
  have c: "Normal_cdf erf d q = Inr r"
    using s2 by (simp add: Normal_cdf_def checked_def validate_sample_ok[of q d s] shq
        bind_err_def binop_def sh tmap_def r_def)
  have "elem r idx = elem p (bidx (shape p) idx)" if v: "valid_index s idx" for idx
  proof -
    have vb: "valid_index (n_batch_shape d) (bidx (n_batch_shape d) idx)"
      by (rule bidx_in_range_r[OF bc v])
    have vp: "valid_index (shape p) (bidx (shape p) idx)"
      by (rule bidx_in_range_l[OF bc v])
    have pos: "0 < elem (scale d) (bidx (n_batch_shape d) idx)"
      by (rule Normal_inv_positive[OF inv vb])
    have rng: "- 1 < 2 * elem p (bidx (shape p) idx) - 1"
      "2 * elem p (bidx (shape p) idx) - 1 < 1"
      using unit vp by auto
    have alg: "(L + a * e * sqrt 2 - L) * inverse a / sqrt 2 = e" if "0 < a" for L a e :: real
      using that by (simp add: field_simps)
    have "elem r idx = 0.5 * (1 + erf ((elem q idx - elem (loc d) (bidx (n_batch_shape d) idx))
              * inverse (elem (scale d) (bidx (n_batch_shape d) idx)) / sqrt 2))"
      by (simp add: r_def bidx_valid[OF v])
    also have "\<dots> = 0.5 * (1 + erf (erfinv (2 * elem p (bidx (shape p) idx) - 1)))"
      by (simp only: elq[OF v] alg[OF pos])
    also have "\<dots> = elem p (bidx (shape p) idx)"
      using erf rng by simp
    finally show ?thesis .
  qed
  with q c show ?thesis by (auto simp: r_def)
qed

theorem Normal_cdf_icdf_witness:
  "Normal_inv ex_normal \<and>
   broadcast_shapes (shape (scalar (1/4))) (n_batch_shape ex_normal) = Some [2] \<and>
   (\<exists>q r. Normal_icdf artanh ex_normal (scalar (1/4)) = Inr q \<and>
      Normal_cdf tanh ex_normal q = Inr r \<and> shape r = [2] \<and> elem r [1] = 1/4)"
proof -
  have v: "valid_index [2] [1]" by (simp add: valid_index_def)
  have b: "broadcast_shapes (shape (scalar (1/4))) (n_batch_shape ex_normal) = Some [2]"
    by (simp add: broadcast_shapes_def scalar_def ex_normal_def)
  have e: "\<forall>y::real. - 1 < y \<and> y < 1 \<longrightarrow> tanh (artanh y) = y"
    by (simp add: tanh_artanh_real)
  have u: "\<forall>idx. valid_index (shape (scalar (1/4))) idx \<longrightarrow>
     0 < elem (scalar (1/4)) idx \<and> elem (scalar (1/4)) idx < 1"
    by (simp add: scalar_def)
  from Normal_cdf_icdf[where erf = tanh and erfinv = artanh, OF ex_normal_inv b e u] v
  show ?thesis
    by (auto simp: ex_normal_inv b) (auto simp add: scalar_def)
qed

lemma Normal_expand_inv:
  assumes inv: "Normal_inv d" and ex: "expandable (n_batch_shape d) bs"
  shows "Normal_expand d bs =
      Inr \<lparr>loc = expand_view bs (loc d), scale = expand_view bs (scale d),
           n_batch_shape = bs, n_validate_args = n_validate_args d\<rparr>"
    and "Normal_inv \<lparr>loc = expand_view bs (loc d), scale = expand_view bs (scale d),
           n_batch_shape = bs, n_validate_args = n_validate_args d\<rparr>"
proof -
  note sh = Normal_inv_shapes[OF inv]
  show "Normal_expand d bs =
      Inr \<lparr>loc = expand_view bs (loc d), scale = expand_view bs (scale d),
           n_batch_shape = bs, n_validate_args = n_validate_args d\<rparr>"
    using ex by (simp add: Normal_expand_def expand_def sh bind_err_def)
  have "0 < elem (scale d) (bidx (n_batch_shape d) idx)" if "valid_index bs idx" for idx
    using Normal_inv_positive[OF inv expandable_bidx_in_range[OF ex that]] .
  then show "Normal_inv \<lparr>loc = expand_view bs (loc d), scale = expand_view bs (scale d),
           n_batch_shape = bs, n_validate_args = n_validate_args d\<rparr>"
    by (simp add: Normal_inv_def expand_view_def sh list_all_iff indices_valid valid_index_def)
qed

text \<open>
  Claim C7. For a distribution that satisfies the invariant and a batch shape \<open>bs\<close> that the
  old batch shape expands to, \<^verbatim>\<open>expand\<close> returns a new instance with the validation flag
  of the source, and \<^verbatim>\<open>log_prob\<close> of the new instance is \<^verbatim>\<open>log_prob\<close> of the source read
  through broadcasting: the value at every index equals the source's value at the original
  coordinate below it.
\<close>

theorem Normal_expand_log_prob:
  assumes inv: "Normal_inv d" and ex: "expandable (n_batch_shape d) bs"
    and b1: "broadcast_shapes (shape v) (n_batch_shape d) = Some s"
    and b2: "broadcast_shapes (shape v) bs = Some s'"
  shows "\<exists>d' r r'. Normal_expand d bs = Inr d' \<and> n_validate_args d' = n_validate_args d \<and>
    n_batch_shape d' = bs \<and>
    Normal_log_prob d v = Inr r \<and> Normal_log_prob d' v = Inr r' \<and>
    shape r = s \<and> shape r' = s' \<and>
    (\<forall>idx. valid_index s' idx \<longrightarrow> elem r' idx = elem r (bidx s idx))"
proof -
  define d' where "d' = \<lparr>loc = expand_view bs (loc d), scale = expand_view bs (scale d),
           n_batch_shape = bs, n_validate_args = n_validate_args d\<rparr>"
  note sh = Normal_inv_shapes[OF inv]
  have e: "Normal_expand d bs = Inr d'" and inv': "Normal_inv d'"
    using Normal_expand_inv[OF inv ex] by (simp_all add: d'_def)
  have b2': "broadcast_shapes (shape v) (n_batch_shape d') = Some s'"
    using b2 by (simp add: d'_def)
  from log_prob_value[OF inv b1] obtain r where
    r: "Normal_log_prob d v = Inr r" "shape r = s" and
    elr: "\<And>idx. valid_index s idx \<Longrightarrow> elem r idx =
         - 0.5 * ((elem v (bidx (shape v) idx) - elem (loc d) (bidx (n_batch_shape d) idx))
                  / elem (scale d) (bidx (n_batch_shape d) idx)) ^ 2
         - ln (elem (scale d) (bidx (n_batch_shape d) idx)) - 0.5 * ln (2 * pi)"
    by blast
  from log_prob_value[OF inv' b2'] obtain r' where
    r': "Normal_log_prob d' v = Inr r'" "shape r' = s'" and
    elr': "\<And>idx. valid_index s' idx \<Longrightarrow> elem r' idx =
         - 0.5 * ((elem v (bidx (shape v) idx) - elem (loc d') (bidx (n_batch_shape d') idx))
                  / elem (scale d') (bidx (n_batch_shape d') idx)) ^ 2
         - ln (elem (scale d') (bidx (n_batch_shape d') idx)) - 0.5 * ln (2 * pi)"
    by blast
  have ss: "expandable s s'"
    by (rule broadcast_expand_mono[OF ex b1 b2])
  have "elem r' idx = elem r (bidx s idx)" if v: "valid_index s' idx" for idx
  proof -
    have vs: "valid_index s (bidx s idx)"
      by (rule expandable_bidx_in_range[OF ss v])
    have c1: "bidx (n_batch_shape d) (bidx bs idx) = bidx (n_batch_shape d) idx"
      by (rule expandable_bidx_compose[OF ex])
    have c2: "bidx (n_batch_shape d) (bidx s idx) = bidx (n_batch_shape d) idx"
      by (rule expandable_bidx_compose[OF broadcast_expandable(2)[OF b1]])
    have c3: "bidx (shape v) (bidx s idx) = bidx (shape v) idx"
      by (rule expandable_bidx_compose[OF broadcast_expandable(1)[OF b1]])
    show ?thesis
      by (simp add: elr'[OF v] elr[OF vs] c2 c3) (simp add: d'_def expand_view_def sh c1)
  qed
  with e r r' show ?thesis by (auto simp: d'_def)
qed

theorem Normal_expand_log_prob_witness:
  "Normal_inv ex_normal \<and> expandable (n_batch_shape ex_normal) [3, 2] \<and>
   broadcast_shapes (shape (scalar 0)) (n_batch_shape ex_normal) = Some [2] \<and>
   broadcast_shapes (shape (scalar 0)) [3, 2] = Some [3, 2] \<and>
   (\<exists>d' r r'. Normal_expand ex_normal [3, 2] = Inr d' \<and> n_batch_shape d' = [3, 2] \<and>
      Normal_log_prob ex_normal (scalar 0) = Inr r \<and> Normal_log_prob d' (scalar 0) = Inr r' \<and>
      shape r = [2] \<and> shape r' = [3, 2] \<and> elem r' [2, 1] = elem r [1])"
proof -
  have v: "valid_index [3, 2] [2, 1]" by (simp add: valid_index_def)
  have x: "expandable (n_batch_shape ex_normal) [3, 2]"
    by (simp add: expandable_def ex_normal_def)
  have b: "broadcast_shapes (shape (scalar 0)) [3, 2] = Some [3, 2]"
    by (simp add: broadcast_shapes_def scalar_def)
  have i: "bidx [2] [2, 1] = [1]" by (simp add: bidx_def)
  from Normal_expand_log_prob[OF ex_normal_inv x ex_bc b] v i
  show ?thesis
    by (simp add: ex_normal_inv x ex_bc b) metis
qed

section \<open>Facts about permuting, padding and reducing\<close>

lemma permute_201:
  "shape v = [a, b, c] \<Longrightarrow>
   permute v [2, 0, 1] = Inr \<lparr>shape = [c, a, b], elem = (\<lambda>idx. elem v [idx ! 1, idx ! 2, idx ! 0])\<rparr>"
  by (simp add: permute_def inv_pos_def upt_rec eval_nat_numeral)

lemma permute_1230:
  "shape v = [a, b, c, e] \<Longrightarrow>
   permute v [1, 2, 3, 0] =
     Inr \<lparr>shape = [b, c, e, a], elem = (\<lambda>idx. elem v [idx ! 3, idx ! 0, idx ! 1, idx ! 2])\<rparr>"
  by (simp add: permute_def inv_pos_def upt_rec eval_nat_numeral)

lemma permute_201_rank:
  "length (shape v) \<noteq> 3 \<Longrightarrow> permute v [2, 0, 1] = Inl RuntimeError"
  by (simp add: permute_def)

lemma pad_value_shape3:
  assumes "shape v = [a, b, c]" and "bsh \<noteq> []"
  shows "\<exists>v2. pad_value v bsh = Inr v2 \<and> shape v2 = [c, a, b, last bsh] \<and>
    (\<forall>k i j m. elem v2 [k, i, j, m] = elem v [i mod a, j mod b, k mod c])"
  unfolding pad_value_def permute_201[OF assms(1)]
  using assms(2) by (simp add: bind_err_def tensor_repeat_def unsqueeze_def Let_def)

lemma pad_value_rank:
  "length (shape v) \<noteq> 3 \<Longrightarrow> pad_value v bsh = Inl RuntimeError"
  by (simp add: pad_value_def permute_def bind_err_def)

lemma bidx4_valid:
  "i < a \<Longrightarrow> j < b \<Longrightarrow> k < c \<Longrightarrow> l < e \<Longrightarrow> bidx [a, b, c, e] [i, j, k, l] = [i, j, k, l]"
  by (rule bidx_valid) (simp add: valid_index_def)

lemma bidx4_last1:
  "i < a \<Longrightarrow> j < b \<Longrightarrow> k < c \<Longrightarrow> bidx [a, b, c, Suc 0] [i, j, k, l] = [i, j, k, 0]"
  by (auto simp: bidx_def)

lemma broadcast_last1: "broadcast_shapes [a, b, c, Suc 0] [a, b, c, e] = Some [a, b, c, e]"
  by (simp add: broadcast_shapes_def)

lemma mixture_log_prob_value:
  assumes sv: "shape v = [B, D, S]"
    and pv: "pad_value v (batch_shape m) = Inr v2"
    and lp: "c_log_prob (components_distribution m) v2 = Inr lp"
    and slp: "shape lp = [S, B, D, M]"
    and lg: "shape (logits (mixture_distribution m)) = [B, D, M]"
  shows "\<exists>r. MixtureSameFamily_log_prob m v = Inr r \<and> shape r = [B, D, S] \<and>
    (\<forall>i j k. i < B \<longrightarrow> j < D \<longrightarrow> k < S \<longrightarrow>
       elem r [i, j, k] =
         ln (\<Sum>c<M. exp (elem (logits (mixture_distribution m)) [i, j, c]
                          + elem lp [k, i, j, c])))"
proof -
  define lgu where "lgu = unsqueeze (length (shape (logits (mixture_distribution m))))
    (logits (mixture_distribution m))"
  define lpp where "lpp = \<lparr>shape = [B, D, M, S],
    elem = (\<lambda>idx. elem lp [idx ! 3, idx ! 0, idx ! 1, idx ! 2])\<rparr>"
  define st where "st = \<lparr>shape = [B, D, M, S],
    elem = (\<lambda>idx. elem lgu (bidx (shape lgu) idx) + elem lpp (bidx (shape lpp) idx))\<rparr>"
  have slgu: "shape lgu = [B, D, M, 1]"
    by (simp add: lgu_def unsqueeze_def lg)
  have p: "permute lp [1, 2, 3, 0] = Inr lpp"
    unfolding lpp_def by (rule permute_1230[OF slp])
  have b: "binop (+) lgu lpp = Inr st"
    by (simp add: binop_def slgu lpp_def st_def broadcast_last1)
  have l: "logsumexp_dim2 st =
      Inr \<lparr>shape = [B, D, S],
           elem = (\<lambda>idx. ln (\<Sum>c<M. exp (elem st (butlast idx @ [c, last idx]))))\<rparr>"
    by (simp add: logsumexp_dim2_def st_def Let_def eval_nat_numeral)
  have e: "MixtureSameFamily_log_prob m v =
      Inr \<lparr>shape = [B, D, S],
           elem = (\<lambda>idx. ln (\<Sum>c<M. exp (elem st (butlast idx @ [c, last idx]))))\<rparr>"
    using p
    by (simp add: MixtureSameFamily_log_prob_def bind_err_def pv lp Let_def lgu_def[symmetric]
        b l)
  have "(\<Sum>c<M. exp (elem st [i, j, c, k])) =
        (\<Sum>c<M. exp (elem (logits (mixture_distribution m)) [i, j, c] + elem lp [k, i, j, c]))"
    if "i < B" "j < D" "k < S" for i j k
  proof (rule sum.cong)
    fix c assume "c \<in> {..<M}"
    then have c: "c < M" by simp
    show "exp (elem st [i, j, c, k]) =
          exp (elem (logits (mixture_distribution m)) [i, j, c] + elem lp [k, i, j, c])"
      using that c
      by (simp add: st_def slgu bidx4_last1 lpp_def bidx4_valid) (simp add: lgu_def unsqueeze_def lg)
  qed simp
  then show ?thesis using e by simp
qed

lemma bidx3_in4:
  "i < a \<Longrightarrow> j < b \<Longrightarrow> c < e \<Longrightarrow> bidx [a, b, e] [k, i, j, c] = [i, j, c]"
  by (auto simp: bidx_def)

lemma normal_padded_log_prob:
  assumes inv: "Normal_inv d" and nb: "n_batch_shape d = [B, D, M]"
    and sv: "shape v2 = [S, B, D, M]"
  shows "\<exists>lp. Normal_log_prob d v2 = Inr lp \<and> shape lp = [S, B, D, M] \<and>
    (\<forall>k i j c. k < S \<longrightarrow> i < B \<longrightarrow> j < D \<longrightarrow> c < M \<longrightarrow>
       elem lp [k, i, j, c] =
         - 0.5 * ((elem v2 [k, i, j, c] - elem (loc d) [i, j, c]) / elem (scale d) [i, j, c]) ^ 2
         - ln (elem (scale d) [i, j, c]) - 0.5 * ln (2 * pi))"
proof -
  have b: "broadcast_shapes (shape v2) (n_batch_shape d) = Some [S, B, D, M]"
    by (simp add: sv nb broadcast_shapes_def)
  from log_prob_value[OF inv b] obtain lp where
    lp: "Normal_log_prob d v2 = Inr lp" "shape lp = [S, B, D, M]" and
    el: "\<And>idx. valid_index [S, B, D, M] idx \<Longrightarrow> elem lp idx =
         - 0.5 * ((elem v2 (bidx (shape v2) idx) - elem (loc d) (bidx (n_batch_shape d) idx))
                  / elem (scale d) (bidx (n_batch_shape d) idx)) ^ 2
         - ln (elem (scale d) (bidx (n_batch_shape d) idx)) - 0.5 * ln (2 * pi)"
    by blast
  have "elem lp [k, i, j, c] =
         - 0.5 * ((elem v2 [k, i, j, c] - elem (loc d) [i, j, c]) / elem (scale d) [i, j, c]) ^ 2
         - ln (elem (scale d) [i, j, c]) - 0.5 * ln (2 * pi)"
    if "k < S" "i < B" "j < D" "c < M" for k i j c
  proof -
    have v: "valid_index [S, B, D, M] [k, i, j, c]"
      using that by (simp add: valid_index_def)
    show ?thesis
      using that by (simp add: el[OF v] sv nb bidx4_valid bidx3_in4)
  qed
  with lp show ?thesis by blast
qed

lemma normal_density:
  assumes "0 < s"
  shows "exp (- 0.5 * q ^ 2 - ln s - 0.5 * ln (2 * pi)) = exp (- (q ^ 2) / 2) / (s * sqrt (2 * pi))"
proof -
  have "0.5 * ln (2 * pi) = ln (sqrt (2 * pi))"
    by (simp add: ln_sqrt)
  then have "exp (- 0.5 * q ^ 2 - ln s - 0.5 * ln (2 * pi))
      = exp (- (q ^ 2) / 2 - ln s - ln (sqrt (2 * pi)))"
    by simp
  also have "\<dots> = exp (- (q ^ 2) / 2) / s / sqrt (2 * pi)"
    using assms by (simp add: exp_diff)
  finally show ?thesis by simp
qed

section \<open>Properties of \<^verbatim>\<open>MixtureSameFamily\<close>\<close>

lemma mixture_normal_log_prob:
  assumes inv: "Normal_inv d" and nb: "n_batch_shape d = [B, D, M]"
    and lg: "shape (logits mix) = [B, D, M]" and sv: "shape v = [B, D, S]"
    and init: "MixtureSameFamily_init mix (Normal_components noise d) = Inr m"
  shows "\<exists>r. MixtureSameFamily_log_prob m v = Inr r \<and> shape r = [B, D, S] \<and>
    (\<forall>i j k. i < B \<longrightarrow> j < D \<longrightarrow> k < S \<longrightarrow>
       elem r [i, j, k] =
         ln (\<Sum>c<M. exp (elem (logits mix) [i, j, c]
               + (- 0.5 * ((elem v [i, j, k] - elem (loc d) [i, j, c])
                           / elem (scale d) [i, j, c]) ^ 2
                  - ln (elem (scale d) [i, j, c]) - 0.5 * ln (2 * pi)))))"
proof -
  have m: "m = \<lparr>mixture_distribution = mix, components_distribution = Normal_components noise d,
      batch_shape = [B, D, M], event_shape = []\<rparr>"
    using init by (simp add: MixtureSameFamily_init_def Normal_components_def nb)
  have bs: "batch_shape m = [B, D, M]" and lgm: "shape (logits (mixture_distribution m)) = [B, D, M]"
    and cl: "c_log_prob (components_distribution m) = Normal_log_prob d"
    by (simp_all add: m lg Normal_components_def)
  from pad_value_shape3[OF sv, of "batch_shape m"] obtain v2 where
    pv: "pad_value v (batch_shape m) = Inr v2" and sv2: "shape v2 = [S, B, D, M]" and
    ev2: "\<And>k i j c. elem v2 [k, i, j, c] = elem v [i mod B, j mod D, k mod S]"
    by (auto simp: bs)
  from normal_padded_log_prob[OF inv nb sv2] obtain lp where
    lp: "Normal_log_prob d v2 = Inr lp" and slp: "shape lp = [S, B, D, M]" and
    elp: "\<And>k i j c. k < S \<Longrightarrow> i < B \<Longrightarrow> j < D \<Longrightarrow> c < M \<Longrightarrow>
       elem lp [k, i, j, c] =
         - 0.5 * ((elem v2 [k, i, j, c] - elem (loc d) [i, j, c]) / elem (scale d) [i, j, c]) ^ 2
         - ln (elem (scale d) [i, j, c]) - 0.5 * ln (2 * pi)"
    by blast
  have lp': "c_log_prob (components_distribution m) v2 = Inr lp"
    by (simp add: cl lp)
  from mixture_log_prob_value[OF sv pv lp' slp lgm] obtain r where
    r: "MixtureSameFamily_log_prob m v = Inr r" "shape r = [B, D, S]" and
    er: "\<And>i j k. i < B \<Longrightarrow> j < D \<Longrightarrow> k < S \<Longrightarrow>
       elem r [i, j, k] =
         ln (\<Sum>c<M. exp (elem (logits (mixture_distribution m)) [i, j, c]
                          + elem lp [k, i, j, c]))"
    by blast
  have "elem r [i, j, k] =
         ln (\<Sum>c<M. exp (elem (logits mix) [i, j, c]
               + (- 0.5 * ((elem v [i, j, k] - elem (loc d) [i, j, c])
                           / elem (scale d) [i, j, c]) ^ 2
                  - ln (elem (scale d) [i, j, c]) - 0.5 * ln (2 * pi))))"
    if b: "i < B" "j < D" "k < S" for i j k
  proof -
    have "(\<Sum>c<M. exp (elem (logits (mixture_distribution m)) [i, j, c] + elem lp [k, i, j, c]))
        = (\<Sum>c<M. exp (elem (logits mix) [i, j, c]
               + (- 0.5 * ((elem v [i, j, k] - elem (loc d) [i, j, c])
                           / elem (scale d) [i, j, c]) ^ 2
                  - ln (elem (scale d) [i, j, c]) - 0.5 * ln (2 * pi))))"
    proof (rule sum.cong)
      fix c assume "c \<in> {..<M}"
      then have c: "c < M" by simp
      show "exp (elem (logits (mixture_distribution m)) [i, j, c] + elem lp [k, i, j, c])
        = exp (elem (logits mix) [i, j, c]
               + (- 0.5 * ((elem v [i, j, k] - elem (loc d) [i, j, c])
                           / elem (scale d) [i, j, c]) ^ 2
                  - ln (elem (scale d) [i, j, c]) - 0.5 * ln (2 * pi)))"
        using b c by (simp add: elp ev2 m)
    qed simp
    then show ?thesis by (simp add: er[OF b])
  qed
  with r show ?thesis by blast
qed

text \<open>
  Claim C1. Take a mixture whose components are an instance of \<^verbatim>\<open>Normal_\<close> that satisfies the
  invariant, with batch shape \<open>[B, D, M]\<close> and \<open>M > 0\<close>, a mixture distribution whose logits
  have the same shape, and a value of shape \<open>[B, D, S]\<close>. Then \<^verbatim>\<open>log_prob\<close> returns a tensor
  of shape \<open>[B, D, S]\<close> whose element at \<open>[i, j, k]\<close> is the log-sum-exp over the components
  \<open>c\<close> of the logit at \<open>[i, j, c]\<close> plus the log-density of component \<open>c\<close> at the value at
  \<open>[i, j, k]\<close>; that is, the logarithm of the sum over \<open>c\<close> of \<open>exp logit\<close> times the
  density of component \<open>c\<close>.
\<close>

theorem MixtureSameFamily_log_prob_logsumexp:
  assumes inv: "Normal_inv d" and nb: "n_batch_shape d = [B, D, M]" and pos: "0 < M"
    and lg: "shape (logits mix) = [B, D, M]" and sv: "shape v = [B, D, S]"
    and init: "MixtureSameFamily_init mix (Normal_components noise d) = Inr m"
  shows "\<exists>r. MixtureSameFamily_log_prob m v = Inr r \<and> shape r = [B, D, S] \<and>
    (\<forall>i j k. i < B \<longrightarrow> j < D \<longrightarrow> k < S \<longrightarrow>
       elem r [i, j, k] =
         ln (\<Sum>c<M. exp (elem (logits mix) [i, j, c]
               + (- 0.5 * ((elem v [i, j, k] - elem (loc d) [i, j, c])
                           / elem (scale d) [i, j, c]) ^ 2
                  - ln (elem (scale d) [i, j, c]) - 0.5 * ln (2 * pi)))) \<and>
       elem r [i, j, k] =
         ln (\<Sum>c<M. exp (elem (logits mix) [i, j, c])
               * (exp (- (((elem v [i, j, k] - elem (loc d) [i, j, c])
                           / elem (scale d) [i, j, c]) ^ 2) / 2)
                  / (elem (scale d) [i, j, c] * sqrt (2 * pi)))))"
proof -
  from mixture_normal_log_prob[OF inv nb lg sv init] obtain r where
    r: "MixtureSameFamily_log_prob m v = Inr r" "shape r = [B, D, S]" and
    er: "\<And>i j k. i < B \<Longrightarrow> j < D \<Longrightarrow> k < S \<Longrightarrow>
       elem r [i, j, k] =
         ln (\<Sum>c<M. exp (elem (logits mix) [i, j, c]
               + (- 0.5 * ((elem v [i, j, k] - elem (loc d) [i, j, c])
                           / elem (scale d) [i, j, c]) ^ 2
                  - ln (elem (scale d) [i, j, c]) - 0.5 * ln (2 * pi))))"
    by blast
  have "(\<Sum>c<M. exp (elem (logits mix) [i, j, c]
               + (- 0.5 * ((elem v [i, j, k] - elem (loc d) [i, j, c])
                           / elem (scale d) [i, j, c]) ^ 2
                  - ln (elem (scale d) [i, j, c]) - 0.5 * ln (2 * pi))))
      = (\<Sum>c<M. exp (elem (logits mix) [i, j, c])
               * (exp (- (((elem v [i, j, k] - elem (loc d) [i, j, c])
                           / elem (scale d) [i, j, c]) ^ 2) / 2)
                  / (elem (scale d) [i, j, c] * sqrt (2 * pi))))"
    if b: "i < B" "j < D" for i j k
  proof (rule sum.cong)
    fix c assume "c \<in> {..<M}"
    then have "valid_index (n_batch_shape d) [i, j, c]"
      using b by (simp add: nb valid_index_def)
    then have p: "0 < elem (scale d) [i, j, c]"
      by (rule Normal_inv_positive[OF inv])
    show "exp (elem (logits mix) [i, j, c]
               + (- 0.5 * ((elem v [i, j, k] - elem (loc d) [i, j, c])
                           / elem (scale d) [i, j, c]) ^ 2
                  - ln (elem (scale d) [i, j, c]) - 0.5 * ln (2 * pi)))
      = exp (elem (logits mix) [i, j, c])
               * (exp (- (((elem v [i, j, k] - elem (loc d) [i, j, c])
                           / elem (scale d) [i, j, c]) ^ 2) / 2)
                  / (elem (scale d) [i, j, c] * sqrt (2 * pi)))"
      unfolding exp_add normal_density[OF p] ..
  qed simp
  then have er2: "elem r [i, j, k] =
         ln (\<Sum>c<M. exp (elem (logits mix) [i, j, c])
               * (exp (- (((elem v [i, j, k] - elem (loc d) [i, j, c])
                           / elem (scale d) [i, j, c]) ^ 2) / 2)
                  / (elem (scale d) [i, j, c] * sqrt (2 * pi))))"
    if "i < B" "j < D" "k < S" for i j k
    using er[OF that] that by (simp only:)
  show ?thesis
    by (intro exI[of _ r] conjI allI impI; (rule r er er2; assumption))
qed

lemma ex_pair_inv: "Normal_inv ex_pair"
  by (simp add: Normal_inv_def ex_pair_def upt_rec)

theorem MixtureSameFamily_log_prob_logsumexp_witness:
  "Normal_inv ex_pair \<and> n_batch_shape ex_pair = [1, 1, 2] \<and> shape ex_value0 = [1, 1, 1] \<and>
   (\<exists>mix m r. OneHotCategorical ex_zero_logits ex_pick = Inr mix \<and>
      shape (logits mix) = [1, 1, 2] \<and>
      MixtureSameFamily_init mix (Normal_components ex_noise ex_pair) = Inr m \<and>
      MixtureSameFamily_log_prob m ex_value0 = Inr r \<and> shape r = [1, 1, 1] \<and>
      elem r [0, 0, 0] =
        ln (exp (ln (1 / 2) + (- 0.5 * ((0 - (- 1)) / 1) ^ 2 - ln 1 - 0.5 * ln (2 * pi)))
            + exp (ln (1 / 2) + (- 0.5 * ((0 - 1) / 1) ^ 2 - ln 1 - 0.5 * ln (2 * pi)))))"
proof -
  define mix where "mix = \<lparr>logits = \<lparr>shape = [1, 1, 2], elem = (\<lambda>idx. - ln (2::real))\<rparr>,
    draw = (\<lambda>sample_shape. Inr \<lparr>shape = sample_shape @ [1, 1, 2], elem = ex_pick\<rparr>)\<rparr>"
  define m where "m = \<lparr>mixture_distribution = mix,
    components_distribution = Normal_components ex_noise ex_pair,
    batch_shape = [1, 1, 2], event_shape = []\<rparr>"
  have c: "OneHotCategorical ex_zero_logits ex_pick = Inr mix"
    by (simp add: OneHotCategorical_def ex_zero_logits_def mix_def)
  have nb: "n_batch_shape ex_pair = [1, 1, 2]" by (simp add: ex_pair_def)
  have lg: "shape (logits mix) = [1, 1, 2]" by (simp add: mix_def)
  have sv: "shape ex_value0 = [1, 1, 1]" by (simp add: ex_value0_def)
  have i: "MixtureSameFamily_init mix (Normal_components ex_noise ex_pair) = Inr m"
    by (simp add: MixtureSameFamily_init_def m_def Normal_components_def ex_pair_def)
  have pos: "(0::nat) < 2" by simp
  from MixtureSameFamily_log_prob_logsumexp[OF ex_pair_inv nb pos lg sv i] obtain r where
    r: "MixtureSameFamily_log_prob m ex_value0 = Inr r" "shape r = [1, 1, 1]" and
    er: "elem r [0, 0, 0] =
         ln (\<Sum>c<2. exp (elem (logits mix) [0, 0, c]
               + (- 0.5 * ((elem ex_value0 [0, 0, 0] - elem (loc ex_pair) [0, 0, c])
                           / elem (scale ex_pair) [0, 0, c]) ^ 2
                  - ln (elem (scale ex_pair) [0, 0, c]) - 0.5 * ln (2 * pi))))"
    by force
  have l2: "ln (1 / 2) = - ln (2::real)"
    by (simp add: ln_div)
  have "elem r [0, 0, 0] =
        ln (exp (ln (1 / 2) + (- 0.5 * ((0 - (- 1)) / 1) ^ 2 - ln 1 - 0.5 * ln (2 * pi)))
            + exp (ln (1 / 2) + (- 0.5 * ((0 - 1) / 1) ^ 2 - ln 1 - 0.5 * ln (2 * pi))))"
    unfolding er l2
    by (simp add: eval_nat_numeral lessThan_Suc mix_def ex_value0_def ex_pair_def)
  with c lg i r show ?thesis
    by (intro conjI exI[of _ mix] exI[of _ m] exI[of _ r] ex_pair_inv nb sv)
qed

lemma ex_std_inv: "Normal_inv ex_std"
  by (simp add: Normal_inv_def ex_std_def list_all_iff)

text \<open>
  Claim C10, as stated, fails in its second half: it says that for every value of three axes
  the result has the shape of the value. The value of shape \<open>[1, 1, 1]\<close> broadcasts against
  components of batch shape \<open>[2, 3, 4]\<close>, and the result has shape \<open>[2, 3, 1]\<close>.
\<close>

theorem MixtureSameFamily_log_prob_shape_counterexample:
  "shape ex_value0 = [1, 1, 1] \<and>
   map_sum id shape (MixtureSameFamily_log_prob ex_wide ex_value0) = Inr [2, 3, 1]"
proof -
  have sv: "shape ex_value0 = [1, 1, 1]" by (simp add: ex_value0_def)
  have ne: "[2, 3, 4] \<noteq> ([]::nat list)" by simp
  from pad_value_shape3[OF sv ne] obtain v2 where
    pv: "pad_value ex_value0 [2, 3, 4] = Inr v2" and sv2: "shape v2 = [1, 1, 1, 4]"
    by auto
  have b: "broadcast_shapes (shape v2) (n_batch_shape ex_std) = Some [1, 2, 3, 4]"
    by (simp add: sv2 ex_std_def broadcast_shapes_def)
  from log_prob_value[OF ex_std_inv b] obtain lp where
    lp: "Normal_log_prob ex_std v2 = Inr lp" and slp: "shape lp = [1, 2, 3, 4]"
    by blast
  from permute_1230[OF slp] obtain lpp where
    p: "permute lp [1, 2, 3, 0] = Inr lpp" and slpp: "shape lpp = [2, 3, 4, 1]"
    by simp
  have "map_sum id shape (MixtureSameFamily_log_prob ex_wide ex_value0) = Inr [2, 3, 1]"
    using p
    by (simp add: MixtureSameFamily_log_prob_def ex_wide_def bind_err_def pv
        Normal_components_def lp binop_def unsqueeze_def slpp broadcast_shapes_def
        logsumexp_dim2_def Let_def)
  with sv show ?thesis by simp
qed

text \<open>
  Claim C10, amended. \<^verbatim>\<open>log_prob\<close> raises for every value whose number of axes is not 3.
  For components that are an instance of \<^verbatim>\<open>Normal_\<close> of batch shape \<open>[B, D, M]\<close>, logits of
  shape \<open>[B, D, M]\<close> and a value of shape \<open>[B, D, S]\<close> (the first two axes of the value are
  the first two batch axes), the result has the shape of the value.
\<close>

theorem MixtureSameFamily_log_prob_shape:
  assumes inv: "Normal_inv d" and nb: "n_batch_shape d = [B, D, M]"
    and lg: "shape (logits mix) = [B, D, M]"
    and init: "MixtureSameFamily_init mix (Normal_components noise d) = Inr m"
  shows "(length (shape w) \<noteq> 3 \<longrightarrow> MixtureSameFamily_log_prob m0 w = Inl RuntimeError) \<and>
    (shape v = [B, D, S] \<longrightarrow>
       (\<exists>r. MixtureSameFamily_log_prob m v = Inr r \<and> shape r = shape v))"
proof (intro conjI impI)
  assume "length (shape w) \<noteq> 3"
  then show "MixtureSameFamily_log_prob m0 w = Inl RuntimeError"
    by (simp add: MixtureSameFamily_log_prob_def pad_value_rank bind_err_def)
next
  assume sv: "shape v = [B, D, S]"
  from mixture_normal_log_prob[OF inv nb lg sv init]
  show "\<exists>r. MixtureSameFamily_log_prob m v = Inr r \<and> shape r = shape v"
    by (auto simp: sv)
qed

theorem MixtureSameFamily_log_prob_shape_witness:
  "Normal_inv ex_pair \<and> n_batch_shape ex_pair = [1, 1, 2] \<and> shape (logits ex_cat) = [1, 1, 2] \<and>
   length (shape (scalar 0)) \<noteq> 3 \<and> shape ex_value0 = [1, 1, 1] \<and>
   (\<exists>m. MixtureSameFamily_init ex_cat (Normal_components ex_noise ex_pair) = Inr m \<and>
      MixtureSameFamily_log_prob m (scalar 0) = Inl RuntimeError \<and>
      (\<exists>r. MixtureSameFamily_log_prob m ex_value0 = Inr r \<and> shape r = [1, 1, 1]))"
proof -
  define m where "m = \<lparr>mixture_distribution = ex_cat,
    components_distribution = Normal_components ex_noise ex_pair,
    batch_shape = [1, 1, 2], event_shape = []\<rparr>"
  have nb: "n_batch_shape ex_pair = [1, 1, 2]" by (simp add: ex_pair_def)
  have lg: "shape (logits ex_cat) = [1, 1, 2]" by (simp add: ex_cat_def)
  have sv: "shape ex_value0 = [1, 1, 1]" by (simp add: ex_value0_def)
  have sc: "length (shape (scalar 0)) \<noteq> 3" by (simp add: scalar_def)
  have i: "MixtureSameFamily_init ex_cat (Normal_components ex_noise ex_pair) = Inr m"
    by (simp add: MixtureSameFamily_init_def m_def Normal_components_def ex_pair_def)
  from MixtureSameFamily_log_prob_shape[OF ex_pair_inv nb lg i, of "scalar 0" m ex_value0 1]
  have "MixtureSameFamily_log_prob m (scalar 0) = Inl RuntimeError"
    and "\<exists>r. MixtureSameFamily_log_prob m ex_value0 = Inr r \<and> shape r = [1, 1, 1]"
    using sc sv by simp_all
  with i show ?thesis
    by (intro conjI exI[of _ m] ex_pair_inv nb lg sc sv)
qed

text \<open>
  Claim C3, as stated, fails: the constructor raises nothing. Here the components have 4 as
  their last batch dimension, the mixture distribution has 2 outcomes, and the construction
  returns an object.
\<close>

theorem MixtureSameFamily_init_mismatch_counterexample:
  "last (c_batch_shape (Normal_components ex_noise ex_std)) = 4 \<and>
   last (shape (logits ex_cat)) = 2 \<and>
   \<not> isl (MixtureSameFamily_init ex_cat (Normal_components ex_noise ex_std))"
  by (simp add: MixtureSameFamily_init_def Normal_components_def ex_std_def ex_cat_def)

text \<open>
  Claim C3, amended. The constructor performs no check of its own: for every pair of
  arguments it returns an object that holds the two distributions and takes its batch shape
  and event shape from the components distribution. A mismatch of the component counts is
  not detected at construction.
\<close>

theorem MixtureSameFamily_init_total:
  "MixtureSameFamily_init mix comps =
     Inr \<lparr>mixture_distribution = mix, components_distribution = comps,
          batch_shape = c_batch_shape comps, event_shape = c_event_shape comps\<rparr>"
  by (simp add: MixtureSameFamily_init_def)

text \<open>
  Claim C4, as stated, fails: it places the new axis of size 1 at the event position, between
  the batch axis and the component axis. For a mask of shape \<open>[2, 3, 4]\<close> that would be the
  shape \<open>[2, 3, 1, 4]\<close>; the code yields \<open>[2, 1, 3, 4]\<close>.
\<close>

theorem mask_align_event_axis_counterexample:
  "shape ex_mask = [2, 3, 4] \<and> shape (mask_align ex_mask) = [2, 1, 3, 4] \<and>
   shape (mask_align ex_mask) \<noteq> [2, 3, 1, 4]"
  by (simp add: mask_align_def ex_mask_def unsqueeze_def)

text \<open>
  Claim C4, amended. When the drawn mask has exactly 3 axes, of shape \<open>[s, d, c]\<close>, an axis
  of size 1 is inserted at position 1, directly after the sample axis: the result has shape
  \<open>[s, 1, d, c]\<close> and the same elements, so that it broadcasts over the batch axis of
  component samples of shape \<open>[s, b, d, c]\<close>. A mask with another number of axes is left as
  it is.
\<close>

theorem mask_align_axis:
  "(shape t = [s, d, c] \<longrightarrow>
      shape (mask_align t) = [s, 1, d, c] \<and>
      (\<forall>i z j k. elem (mask_align t) [i, z, j, k] = elem t [i, j, k]) \<and>
      (\<forall>b. broadcast_shapes (shape (mask_align t)) [s, b, d, c] = Some [s, b, d, c])) \<and>
   (length (shape t) \<noteq> 3 \<longrightarrow> mask_align t = t)"
  by (simp add: mask_align_def unsqueeze_def broadcast_shapes_def)

theorem mask_align_axis_witness:
  "shape ex_mask = [2, 3, 4] \<and> shape (mask_align ex_mask) = [2, 1, 3, 4] \<and>
   elem (mask_align ex_mask) [1, 0, 2, 0] = elem ex_mask [1, 2, 0] \<and>
   broadcast_shapes (shape (mask_align ex_mask)) [2, 5, 3, 4] = Some [2, 5, 3, 4] \<and>
   length (shape (scalar 1)) \<noteq> 3 \<and> mask_align (scalar 1) = scalar 1"
proof -
  have a: "shape ex_mask = [2, 3, 4]" by (simp add: ex_mask_def)
  have b: "length (shape (scalar 1)) \<noteq> 3" by (simp add: scalar_def)
  from mask_align_axis[of ex_mask 2 3 4] a
  have x: "shape (mask_align ex_mask) = [2, 1, 3, 4] \<and>
      (\<forall>i z j k. elem (mask_align ex_mask) [i, z, j, k] = elem ex_mask [i, j, k]) \<and>
      (\<forall>b. broadcast_shapes (shape (mask_align ex_mask)) [2, b, 3, 4] = Some [2, b, 3, 4])"
    by blast
  from mask_align_axis[of "scalar 1"] b
  have y: "mask_align (scalar 1) = scalar 1"
    by blast
  from x have "elem (mask_align ex_mask) [1, 0, 2, 0] = elem ex_mask [1, 2, 0]"
    and "broadcast_shapes (shape (mask_align ex_mask)) [2, 5, 3, 4] = Some [2, 5, 3, 4]"
    by blast+
  with a b x y show ?thesis by blast
qed

lemma valid_index_snoc:
  "valid_index X idx \<Longrightarrow> c < M \<Longrightarrow> valid_index (X @ [M]) (idx @ [c])"
  by (simp add: valid_index_def list_all2_appendI)

lemma sample_same_shape:
  assumes dr: "draw (mixture_distribution m) ss = Inr mk"
    and rs: "c_rsample (components_distribution m) ss = Inr cs"
    and smk: "shape mk = X @ [M]" and scs: "shape cs = X @ [M]"
    and rank: "length (X @ [M]) \<noteq> 3"
  shows "\<exists>r. MixtureSameFamily_sample m ss = Inr r \<and> shape r = X \<and>
    (\<forall>idx. valid_index X idx \<longrightarrow>
       elem r idx = (\<Sum>c<M. elem mk (idx @ [c]) * elem cs (idx @ [c])))"
proof -
  define r where "r = \<lparr>shape = X,
    elem = (\<lambda>idx. \<Sum>c<M. elem mk (bidx (X @ [M]) (idx @ [c]))
                          * elem cs (bidx (X @ [M]) (idx @ [c])))\<rparr>"
  have al: "mask_align mk = mk"
    using rank by (simp add: mask_align_def smk)
  have e: "MixtureSameFamily_sample m ss = Inr r"
    by (simp add: MixtureSameFamily_sample_def dr rs bind_err_def al binop_def smk scs
        broadcast_refl sum_last_def r_def)
  have "elem r idx = (\<Sum>c<M. elem mk (idx @ [c]) * elem cs (idx @ [c]))"
    if v: "valid_index X idx" for idx
    unfolding r_def using v by (simp add: bidx_valid valid_index_snoc)
  with e show ?thesis by (auto simp: r_def)
qed

lemma sample_shared_mask:
  assumes dr: "draw (mixture_distribution m) ss = Inr mk"
    and rs: "c_rsample (components_distribution m) ss = Inr cs"
    and smk: "shape mk = [s, d, M]" and scs: "shape cs = [s, b, d, M]"
  shows "\<exists>r. MixtureSameFamily_sample m ss = Inr r \<and> shape r = [s, b, d] \<and>
    (\<forall>i n j. i < s \<longrightarrow> n < b \<longrightarrow> j < d \<longrightarrow>
       elem r [i, n, j] = (\<Sum>c<M. elem mk [i, j, c] * elem cs [i, n, j, c]))"
proof -
  define r where "r = \<lparr>shape = [s, b, d],
    elem = (\<lambda>idx. \<Sum>c<M. elem (mask_align mk) (bidx [s, Suc 0, d, M] (idx @ [c]))
                          * elem cs (bidx [s, b, d, M] (idx @ [c])))\<rparr>"
  have al: "shape (mask_align mk) = [s, Suc 0, d, M]"
    by (simp add: mask_align_def smk unsqueeze_def)
  have bc: "broadcast_shapes [s, Suc 0, d, M] [s, b, d, M] = Some [s, b, d, M]"
    by (simp add: broadcast_shapes_def)
  have e: "MixtureSameFamily_sample m ss = Inr r"
    by (simp add: MixtureSameFamily_sample_def dr rs bind_err_def binop_def al scs bc
        sum_last_def r_def)
  have "elem r [i, n, j] = (\<Sum>c<M. elem mk [i, j, c] * elem cs [i, n, j, c])"
    if b: "i < s" "n < b" "j < d" for i n j
  proof -
    have "(\<Sum>c<M. elem (mask_align mk) (bidx [s, Suc 0, d, M] ([i, n, j] @ [c]))
                          * elem cs (bidx [s, b, d, M] ([i, n, j] @ [c])))
        = (\<Sum>c<M. elem mk [i, j, c] * elem cs [i, n, j, c])"
    proof (rule sum.cong)
      fix c assume "c \<in> {..<M}"
      then have c: "c < M" by simp
      have 1: "bidx [s, Suc 0, d, M] [i, n, j, c] = [i, 0, j, c]"
        using b c by (auto simp: bidx_def)
      show "elem (mask_align mk) (bidx [s, Suc 0, d, M] ([i, n, j] @ [c]))
                          * elem cs (bidx [s, b, d, M] ([i, n, j] @ [c]))
        = elem mk [i, j, c] * elem cs [i, n, j, c]"
        using b c by (simp add: 1 bidx4_valid mask_align_def smk unsqueeze_def)
    qed simp
    then show ?thesis by (simp add: r_def)
  qed
  with e show ?thesis by (auto simp: r_def)
qed

text \<open>
  Claim C5, as stated, fails at its own concrete case. With sample shape \<open>[10]\<close>, batch shape
  \<open>[3, 4]\<close> and event shape \<open>[2]\<close> the component samples have shape \<open>[10, 3, 4, 2]\<close>: the
  component axis is not the last one. The mask of shape \<open>[10, 3, 4]\<close> becomes
  \<open>[10, 1, 3, 4]\<close>, the product cannot be broadcast, and \<^verbatim>\<open>sample\<close> raises instead of
  returning a tensor of shape \<open>[10, 3, 2]\<close>.
\<close>

theorem MixtureSameFamily_sample_event_counterexample:
  "batch_shape ex_event_mixture = [3, 4] \<and> event_shape ex_event_mixture = [2] \<and>
   MixtureSameFamily_sample ex_event_mixture [10] = Inl RuntimeError"
  by (simp add: ex_event_mixture_def MixtureSameFamily_sample_def bind_err_def mask_align_def
      unsqueeze_def binop_def broadcast_shapes_def)

text \<open>
  Claim C5, amended. Let the components distribution have an empty event shape and batch
  shape \<open>B @ [M]\<close>, so that its reparameterized samples have shape
  \<open>sample_shape @ B @ [M]\<close> with the component axis last. If the drawn mask has the same
  shape and that shape does not have 3 axes, or if the mask has 3 axes \<open>[s, d, M]\<close> against
  samples of shape \<open>[s, b, d, M]\<close>, then \<^verbatim>\<open>sample\<close> multiplies mask and samples elementwise
  (the mask broadcast over the batch axis in the second case), sums over the component axis,
  and returns a tensor of shape \<open>sample_shape @ butlast batch_shape @ event_shape\<close>.
\<close>

theorem MixtureSameFamily_sample_shape:
  assumes dr: "draw (mixture_distribution m) ss = Inr mk"
    and rs: "c_rsample (components_distribution m) ss = Inr cs"
    and ev: "event_shape m = []" and bsh: "batch_shape m = B @ [M]"
    and scs: "shape cs = ss @ batch_shape m @ event_shape m"
  shows "(shape mk = shape cs \<and> length (shape cs) \<noteq> 3 \<longrightarrow>
      (\<exists>r. MixtureSameFamily_sample m ss = Inr r \<and>
           shape r = ss @ butlast (batch_shape m) @ event_shape m \<and>
           (\<forall>idx. valid_index (shape r) idx \<longrightarrow>
              elem r idx = (\<Sum>c<M. elem mk (idx @ [c]) * elem cs (idx @ [c]))))) \<and>
    (\<forall>s b d. ss = [s] \<and> B = [b, d] \<and> shape mk = [s, d, M] \<longrightarrow>
      (\<exists>r. MixtureSameFamily_sample m ss = Inr r \<and>
           shape r = ss @ butlast (batch_shape m) @ event_shape m \<and>
           (\<forall>i n j. i < s \<longrightarrow> n < b \<longrightarrow> j < d \<longrightarrow>
              elem r [i, n, j] = (\<Sum>c<M. elem mk [i, j, c] * elem cs [i, n, j, c]))))"
proof (intro conjI allI impI)
  assume a: "shape mk = shape cs \<and> length (shape cs) \<noteq> 3"
  have scs': "shape cs = (ss @ B) @ [M]" by (simp add: scs ev bsh)
  have smk: "shape mk = (ss @ B) @ [M]" using a scs' by simp
  have rank: "length ((ss @ B) @ [M]) \<noteq> 3" using a scs' by simp
  from sample_same_shape[OF dr rs smk scs' rank]
  show "\<exists>r. MixtureSameFamily_sample m ss = Inr r \<and>
           shape r = ss @ butlast (batch_shape m) @ event_shape m \<and>
           (\<forall>idx. valid_index (shape r) idx \<longrightarrow>
              elem r idx = (\<Sum>c<M. elem mk (idx @ [c]) * elem cs (idx @ [c])))"
    by (auto simp: ev bsh)
next
  fix s b d
  assume a: "ss = [s] \<and> B = [b, d] \<and> shape mk = [s, d, M]"
  have scs': "shape cs = [s, b, d, M]" using a by (simp add: scs ev bsh)
  have smk: "shape mk = [s, d, M]" using a by simp
  from sample_shared_mask[OF dr rs smk scs']
  show "\<exists>r. MixtureSameFamily_sample m ss = Inr r \<and>
           shape r = ss @ butlast (batch_shape m) @ event_shape m \<and>
           (\<forall>i n j. i < s \<longrightarrow> n < b \<longrightarrow> j < d \<longrightarrow>
              elem r [i, n, j] = (\<Sum>c<M. elem mk [i, j, c] * elem cs [i, n, j, c]))"
    using a by (auto simp: ev bsh)
qed

lemma ex_std_rsample:
  "\<exists>cs. Normal_rsample ex_noise ex_std [5] = Inr cs \<and> shape cs = [5, 2, 3, 4]"
  by (simp add: Normal_rsample_def ex_std_def binop_def broadcast_shapes_def bind_err_def Let_def)

theorem MixtureSameFamily_sample_shape_witness:
  "event_shape ex_wide = [] \<and> batch_shape ex_wide = [2, 3] @ [4] \<and>
   event_shape ex_shared = [] \<and> batch_shape ex_shared = [2, 3] @ [4] \<and>
   (\<exists>r. MixtureSameFamily_sample ex_wide [5] = Inr r \<and> shape r = [5, 2, 3]) \<and>
   (\<exists>r. MixtureSameFamily_sample ex_shared [5] = Inr r \<and> shape r = [5, 2, 3])"
proof -
  from ex_std_rsample obtain cs where
    cs: "Normal_rsample ex_noise ex_std [5] = Inr cs" and scs: "shape cs = [5, 2, 3, 4]"
    by blast
  have ev: "event_shape ex_wide = []" and bsh: "batch_shape ex_wide = [2, 3] @ [4]"
    and ev': "event_shape ex_shared = []" and bsh': "batch_shape ex_shared = [2, 3] @ [4]"
    by (simp_all add: ex_wide_def ex_shared_def)
  have dr: "draw (mixture_distribution ex_wide) [5] = Inr \<lparr>shape = [5, 2, 3, 4], elem = ex_pick\<rparr>"
    by (simp add: ex_wide_def)
  have rs: "c_rsample (components_distribution ex_wide) [5] = Inr cs"
    by (simp add: ex_wide_def Normal_components_def cs)
  have sh: "shape cs = [5] @ batch_shape ex_wide @ event_shape ex_wide"
    by (simp add: scs ev bsh)
  have dr': "draw (mixture_distribution ex_shared) [5] = Inr \<lparr>shape = [5, 3, 4], elem = ex_pick\<rparr>"
    by (simp add: ex_shared_def)
  have rs': "c_rsample (components_distribution ex_shared) [5] = Inr cs"
    by (simp add: ex_shared_def Normal_components_def cs)
  have sh': "shape cs = [5] @ batch_shape ex_shared @ event_shape ex_shared"
    by (simp add: scs ev' bsh')
  from MixtureSameFamily_sample_shape[OF dr rs ev bsh sh]
  have a: "\<exists>r. MixtureSameFamily_sample ex_wide [5] = Inr r \<and> shape r = [5, 2, 3]"
    by (auto simp: scs ev bsh)
  from MixtureSameFamily_sample_shape[OF dr' rs' ev' bsh' sh']
  have b: "\<exists>r. MixtureSameFamily_sample ex_shared [5] = Inr r \<and> shape r = [5, 2, 3]"
    by (auto simp: ev' bsh')
  from ev bsh ev' bsh' a b show ?thesis by blast
qed

end
